theory Spec2Isabelle
  imports Main
begin

section \<open>The platform's Date object\<close>

text \<open>
  The component of \<^verbatim>\<open>src/ByteDatePicker.tsx\<close> does all its calendar work through the
  built-in \<^verbatim>\<open>Date\<close>: \<^verbatim>\<open>new Date(year, month, day)\<close>, \<^verbatim>\<open>getFullYear()\<close>,
  \<^verbatim>\<open>getMonth()\<close>, \<^verbatim>\<open>getDate()\<close>, \<^verbatim>\<open>getDay()\<close> and the comparison of two dates by
  their time values. The definitions of this section follow the abstract operations of
  the language standard (Day, DaysInYear, DayFromYear, YearFromTime, InLeapYear,
  MonthFromTime, DateFromTime, WeekDay, MakeDay, MakeDate and the Date constructor).

  Scope of the model: a date is its time value in milliseconds, read on the local civil
  time line (the offset of the local zone is constant and taken as 0); numbers are
  integers; the Invalid Date (a time value NaN, also what the constructor gives beyond
  about 275760 years from 1970) is not represented.
\<close>

datatype Date = Date (getTime: int)

definition msPerDay :: int where
  "msPerDay = 86400000"

definition Day :: "int \<Rightarrow> int" where
  "Day t = t div msPerDay"

definition DaysInYear :: "int \<Rightarrow> int" where
  "DaysInYear y =
     (if y mod 4 \<noteq> 0 then 365
      else if y mod 100 \<noteq> 0 then 366
      else if y mod 400 \<noteq> 0 then 365
      else 366)"

definition InLeapYear :: "int \<Rightarrow> int" where
  "InLeapYear y = (if DaysInYear y = 365 then 0 else 1)"

definition DayFromYear :: "int \<Rightarrow> int" where
  "DayFromYear y =
     365 * (y - 1970) + (y - 1969) div 4 - (y - 1901) div 100 + (y - 1601) div 400"

subsection \<open>Every year has 365 or 366 days\<close>

lemma div_succ:
  fixes x c :: int
  assumes "0 < c"
  shows "(x + 1) div c = x div c + (if (x + 1) mod c = 0 then 1 else 0)"
proof -
  define q where "q = x div c"
  define r where "r = x mod c"
  have x: "x = c * q + r" by (simp add: q_def r_def)
  have r: "0 \<le> r" "r < c" using assms by (simp_all add: r_def)
  show ?thesis
  proof (cases "r + 1 = c")
    case True
    have "x + 1 = c * (q + 1)" using x True by (simp add: algebra_simps)
    then have "(x + 1) div c = q + 1" "(x + 1) mod c = 0" using assms by simp_all
    then show ?thesis by (simp add: q_def)
  next
    case False
    with r have lt: "r + 1 < c" by simp
    have eq: "x + 1 = c * q + (r + 1)" using x by simp
    have "(x + 1) div c = q"
      by (rule int_div_pos_eq [OF eq]) (use r lt in simp_all)
    moreover have "(x + 1) mod c = r + 1"
      by (rule int_mod_pos_eq [OF eq]) (use r lt in simp_all)
    ultimately show ?thesis using r by (simp add: q_def)
  qed
qed

lemma mod4_shift: "((y::int) - 1968) mod 4 = y mod 4"
proof -
  have "y - 1968 = y + 4 * (- 492)" by simp
  then show ?thesis by (simp only: mod_mult_self2)
qed

lemma mod100_shift: "((y::int) - 1900) mod 100 = y mod 100"
proof -
  have "y - 1900 = y + 100 * (- 19)" by simp
  then show ?thesis by (simp only: mod_mult_self2)
qed

lemma mod400_shift: "((y::int) - 1600) mod 400 = y mod 400"
proof -
  have "y - 1600 = y + 400 * (- 4)" by simp
  then show ?thesis by (simp only: mod_mult_self2)
qed

lemma mod100_mod4: "(y::int) mod 100 = 0 \<Longrightarrow> y mod 4 = 0"
  by presburger

lemma mod400_mod100: "(y::int) mod 400 = 0 \<Longrightarrow> y mod 100 = 0"
proof -
  assume "y mod 400 = 0"
  then have "400 dvd y" by (simp add: dvd_eq_mod_eq_0)
  moreover have "(100::int) dvd 400" by simp
  ultimately have "100 dvd y" by (rule dvd_trans [rotated])
  then show ?thesis by (simp add: dvd_eq_mod_eq_0)
qed

lemma DayFromYear_step: "DayFromYear (y + 1) = DayFromYear y + DaysInYear y"
proof -
  have a: "(y + 1 - 1969) div 4 = (y - 1969) div 4 + (if y mod 4 = 0 then 1 else 0)"
    using div_succ [of 4 "y - 1969"] mod4_shift [of y] by (simp add: algebra_simps)
  have b: "(y + 1 - 1901) div 100 = (y - 1901) div 100 + (if y mod 100 = 0 then 1 else 0)"
    using div_succ [of 100 "y - 1901"] mod100_shift [of y] by (simp add: algebra_simps)
  have c: "(y + 1 - 1601) div 400 = (y - 1601) div 400 + (if y mod 400 = 0 then 1 else 0)"
    using div_succ [of 400 "y - 1601"] mod400_shift [of y] by (simp add: algebra_simps)
  show ?thesis
    unfolding DayFromYear_def DaysInYear_def a b c
    using mod100_mod4 [of y] mod400_mod100 [of y] by auto
qed

lemma DaysInYear_cases: "DaysInYear y = 365 \<or> DaysInYear y = 366"
  by (simp add: DaysInYear_def)

lemma DayFromYear_less: "DayFromYear y < DayFromYear (y + 1)"
  using DaysInYear_cases [of y] by (auto simp: DayFromYear_step)

lemma DayFromYear_mono: "a \<le> b \<Longrightarrow> DayFromYear a \<le> DayFromYear b"
proof (induction b rule: int_ge_induct)
  case base
  show ?case by simp
next
  case (step i)
  then show ?case using DayFromYear_less [of i] by simp
qed

subsection \<open>YearFromTime, by search\<close>

text \<open>
  The standard defines the year of a time value as the largest \<open>y\<close> whose first day is
  not after it. The executable version starts from the estimate \<open>1970 + d div 365\<close>,
  walks down while the year starts after day \<open>d\<close>, and then up while the next year
  starts at or before it. Both walks terminate because the first days of the years
  increase strictly.
\<close>

function year_down :: "int \<Rightarrow> int \<Rightarrow> int" where
  "year_down d y = (if d < DayFromYear y then year_down d (y - 1) else y)"
  by pat_completeness auto
termination
proof (relation "measure (\<lambda>(d, y). nat (DayFromYear y - d))")
  show "wf (measure (\<lambda>(d, y). nat (DayFromYear y - d)))" by simp
next
  fix d y :: int
  assume "d < DayFromYear y"
  moreover have "DayFromYear (y - 1) < DayFromYear y"
    using DayFromYear_less [of "y - 1"] by simp
  ultimately show "((d, y - 1), (d, y)) \<in> measure (\<lambda>(d, y). nat (DayFromYear y - d))"
    by simp
qed

function year_up :: "int \<Rightarrow> int \<Rightarrow> int" where
  "year_up d y = (if DayFromYear (y + 1) \<le> d then year_up d (y + 1) else y)"
  by pat_completeness auto
termination
proof (relation "measure (\<lambda>(d, y). nat (d + 1 - DayFromYear (y + 1)))")
  show "wf (measure (\<lambda>(d, y). nat (d + 1 - DayFromYear (y + 1))))" by simp
next
  fix d y :: int
  assume "DayFromYear (y + 1) \<le> d"
  moreover have "DayFromYear (y + 1) < DayFromYear (y + 1 + 1)"
    by (rule DayFromYear_less)
  ultimately show
    "((d, y + 1), (d, y)) \<in> measure (\<lambda>(d, y). nat (d + 1 - DayFromYear (y + 1)))"
    by simp
qed

declare year_down.simps [simp del]
declare year_up.simps [simp del]

definition YearFromDay :: "int \<Rightarrow> int" where
  "YearFromDay d = year_up d (year_down d (1970 + d div 365))"

definition YearFromTime :: "int \<Rightarrow> int" where
  "YearFromTime t = YearFromDay (Day t)"

definition DayWithinYear :: "int \<Rightarrow> int" where
  "DayWithinYear t = Day t - DayFromYear (YearFromTime t)"

definition MonthFromTime :: "int \<Rightarrow> int" where
  "MonthFromTime t =
     (let d = DayWithinYear t; l = InLeapYear (YearFromTime t) in
      if d < 31 then 0
      else if d < 59 + l then 1
      else if d < 90 + l then 2
      else if d < 120 + l then 3
      else if d < 151 + l then 4
      else if d < 181 + l then 5
      else if d < 212 + l then 6
      else if d < 243 + l then 7
      else if d < 273 + l then 8
      else if d < 304 + l then 9
      else if d < 334 + l then 10
      else 11)"

definition DateFromTime :: "int \<Rightarrow> int" where
  "DateFromTime t =
     (let d = DayWithinYear t; l = InLeapYear (YearFromTime t); m = MonthFromTime t in
      if m = 0 then d + 1
      else if m = 1 then d - 30
      else if m = 2 then d - 58 - l
      else if m = 3 then d - 89 - l
      else if m = 4 then d - 119 - l
      else if m = 5 then d - 150 - l
      else if m = 6 then d - 180 - l
      else if m = 7 then d - 211 - l
      else if m = 8 then d - 242 - l
      else if m = 9 then d - 272 - l
      else if m = 10 then d - 303 - l
      else d - 333 - l)"

definition WeekDay :: "int \<Rightarrow> int" where
  "WeekDay t = (Day t + 4) mod 7"

text \<open>
  MakeDay: the month is carried into the year (\<open>ym\<close>, \<open>mn\<close>), and the result is the day
  number of the first of month \<open>mn\<close> of year \<open>ym\<close> plus \<open>dt - 1\<close>. The first of the
  month is the first day of the year plus the lengths of the months before it.
\<close>

definition DaysBeforeMonth :: "int \<Rightarrow> int \<Rightarrow> int" where
  "DaysBeforeMonth l mn =
     (if mn = 0 then 0
      else if mn = 1 then 31
      else if mn = 2 then 59 + l
      else if mn = 3 then 90 + l
      else if mn = 4 then 120 + l
      else if mn = 5 then 151 + l
      else if mn = 6 then 181 + l
      else if mn = 7 then 212 + l
      else if mn = 8 then 243 + l
      else if mn = 9 then 273 + l
      else if mn = 10 then 304 + l
      else 334 + l)"

definition MakeDay :: "int \<Rightarrow> int \<Rightarrow> int \<Rightarrow> int" where
  "MakeDay year month dt =
     (let ym = year + month div 12; mn = month mod 12 in
      DayFromYear ym + DaysBeforeMonth (InLeapYear ym) mn + dt - 1)"

text \<open>
  \<^verbatim>\<open>new Date(year, month, day)\<close>: a year from 0 to 99 is read as 1900 + year, the time
  within the day is 0.
\<close>

definition new_Date :: "int \<Rightarrow> int \<Rightarrow> int \<Rightarrow> Date" where
  "new_Date year month day =
     (let yr = (if 0 \<le> year \<and> year \<le> 99 then 1900 + year else year) in
      Date (MakeDay yr month day * msPerDay))"

definition getFullYear :: "Date \<Rightarrow> int" where
  "getFullYear date = YearFromTime (getTime date)"

definition getMonth :: "Date \<Rightarrow> int" where
  "getMonth date = MonthFromTime (getTime date)"

definition getDate :: "Date \<Rightarrow> int" where
  "getDate date = DateFromTime (getTime date)"

definition getDay :: "Date \<Rightarrow> int" where
  "getDay date = WeekDay (getTime date)"

section \<open>Helpers of the component\<close>

text \<open>
  \<^verbatim>\<open>getDaysInMonth\<close> and \<^verbatim>\<open>getFirstDayOfMonth\<close> (the same in both versions of the
  file): day 0 of the next month, and the weekday of the first of the month.
\<close>

definition getDaysInMonth :: "int \<Rightarrow> int \<Rightarrow> int" where
  "getDaysInMonth year month = getDate (new_Date year (month + 1) 0)"

definition getFirstDayOfMonth :: "int \<Rightarrow> int \<Rightarrow> int" where
  "getFirstDayOfMonth year month = getDay (new_Date year month 1)"

definition monthNames :: "string list" where
  "monthNames =
     [''January'', ''February'', ''March'', ''April'', ''May'', ''June'', ''July'',
      ''August'', ''September'', ''October'', ''November'', ''December'']"

definition shortMonthNames :: "string list" where
  "shortMonthNames = map (take 3) monthNames"

definition weekDays :: "string list" where
  "weekDays = [''Sun'', ''Mon'', ''Tue'', ''Wed'', ''Thu'', ''Fri'', ''Sat'']"

subsection \<open>Numbers and strings\<close>

text \<open>
  \<^verbatim>\<open>n.toString()\<close> and \<^verbatim>\<open>String(n)\<close> of an integer: its decimal digits, with a minus
  sign for a negative one. \<^verbatim>\<open>s.padStart(n, "0")\<close> puts zeros in front of a string shorter
  than \<open>n\<close>. \<^verbatim>\<open>s.replace(/pat/g, rep)\<close> with a pattern of literal characters replaces,
  from left to right, every match that does not overlap an earlier one; the component
  calls it with the patterns \<^verbatim>\<open>yyyy\<close>, \<^verbatim>\<open>mm\<close> and \<^verbatim>\<open>dd\<close> and with replacement texts
  made of digits and a minus sign, in which the replacement patterns that start with a
  dollar sign cannot occur. The empty pattern is not used; \<open>replace_g\<close> replaces
  nothing for it.
\<close>

definition digit :: "nat \<Rightarrow> char" where
  "digit k = ''0123456789'' ! k"

fun digits :: "nat \<Rightarrow> string" where
  "digits n = (if n < 10 then [digit n] else digits (n div 10) @ [digit (n mod 10)])"

declare digits.simps [simp del]

definition Number_toString :: "int \<Rightarrow> string" where
  "Number_toString n = (if n < 0 then CHR ''-'' # digits (nat (- n)) else digits (nat n))"

definition padStart :: "nat \<Rightarrow> char \<Rightarrow> string \<Rightarrow> string" where
  "padStart n c s = (if n \<le> length s then s else replicate (n - length s) c @ s)"

fun replace_g :: "string \<Rightarrow> string \<Rightarrow> string \<Rightarrow> string" where
  "replace_g pat rep [] = []"
| "replace_g pat rep (c # cs) =
     (if pat \<noteq> [] \<and> take (length pat) (c # cs) = pat
      then rep @ replace_g pat rep (drop (length pat) (c # cs))
      else c # replace_g pat rep cs)"

definition formatDateByString :: "Date \<Rightarrow> string \<Rightarrow> string" where
  "formatDateByString date format =
     (let yyyy = Number_toString (getFullYear date);
          mm = padStart 2 CHR ''0'' (Number_toString (getMonth date + 1));
          dd = padStart 2 CHR ''0'' (Number_toString (getDate date))
      in replace_g ''dd'' dd (replace_g ''mm'' mm (replace_g ''yyyy'' yyyy format)))"

section \<open>The component\<close>

text \<open>
  The props of the second version of the component (the first has only the first five).
  \<open>onChange\<close> says whether a change callback was supplied; the render function
  \<^verbatim>\<open>children\<close> draws the trigger and has no part in the state. A bound is a Date or a
  string.
\<close>

datatype date_input = DateObj Date | DateStr string

datatype ViewMode = Days | Months | Years

datatype direction = Prev | Next

record props =
  value_prop :: "Date option"
  onChange :: bool
  placeholder :: string
  disabled :: bool
  includeDays :: bool
  minDate :: "date_input option"
  maxDate :: "date_input option"
  formatString :: "string option"
  hideInput :: bool

text \<open>
  The state of one instance: the five \<^verbatim>\<open>useState\<close> cells, and \<open>changes\<close>, the
  arguments of the calls of \<^verbatim>\<open>onChange\<close> made so far, oldest first.
\<close>

record state =
  selectedDate :: "Date option"
  currentYear :: int
  currentMonth :: int
  isOpen :: bool
  viewMode :: ViewMode
  changes :: "Date list"

text \<open>
  \<^verbatim>\<open>normalizeToDate\<close>. The parser of date strings belongs to the platform and is a
  parameter: \<open>parse s\<close> is the time value of \<^verbatim>\<open>new Date(s)\<close>, \<open>None\<close> when it is NaN.
  The empty string is falsy and is rejected before it is parsed.
\<close>

definition normalizeToDate :: "(string \<Rightarrow> int option) \<Rightarrow> date_input option \<Rightarrow> Date option" where
  "normalizeToDate parse val =
     (case val of
        None \<Rightarrow> None
      | Some (DateStr s) \<Rightarrow>
          (if s = [] then None
           else (case parse s of None \<Rightarrow> None | Some t \<Rightarrow> Some (Date t)))
      | Some (DateObj d) \<Rightarrow> Some d)"

definition min_bound :: "(string \<Rightarrow> int option) \<Rightarrow> props \<Rightarrow> Date option" where
  "min_bound parse p = normalizeToDate parse (minDate p)"

definition max_bound :: "(string \<Rightarrow> int option) \<Rightarrow> props \<Rightarrow> Date option" where
  "max_bound parse p = normalizeToDate parse (maxDate p)"

text \<open>\<^verbatim>\<open>a || b\<close> on numbers: 0 is falsy.\<close>

definition num_or :: "int \<Rightarrow> int \<Rightarrow> int" where
  "num_or a b = (if a = 0 then b else a)"

subsection \<open>Creation and the effect on the value\<close>

text \<open>
  The initial values of the \<^verbatim>\<open>useState\<close> cells, and the effect with the dependency
  \<^verbatim>\<open>[value]\<close>, which runs once when the component is mounted and again after every
  render in which the value has changed. \<open>today\<close> is the \<^verbatim>\<open>new Date()\<close> of the render.
\<close>

definition initial_state :: "props \<Rightarrow> Date \<Rightarrow> state" where
  "initial_state p today =
     \<lparr> selectedDate = value_prop p,
       currentYear =
         (case value_prop p of
            None \<Rightarrow> getFullYear today
          | Some v \<Rightarrow> num_or (getFullYear v) (getFullYear today)),
       currentMonth =
         (case value_prop p of
            None \<Rightarrow> getMonth today
          | Some v \<Rightarrow> num_or (getMonth v) (getMonth today)),
       isOpen = False,
       viewMode = (if includeDays p then Days else Months),
       changes = [] \<rparr>"

definition value_effect :: "props \<Rightarrow> state \<Rightarrow> state" where
  "value_effect p s =
     (case value_prop p of
        None \<Rightarrow> s\<lparr>selectedDate := None\<rparr>
      | Some v \<Rightarrow>
          s\<lparr>selectedDate := Some v, currentYear := getFullYear v, currentMonth := getMonth v\<rparr>)"

definition mount :: "props \<Rightarrow> Date \<Rightarrow> state" where
  "mount p today = value_effect p (initial_state p today)"

text \<open>
  The first version of the file: the selection starts as \<^verbatim>\<open>value || today\<close>, and its
  effect only copies the value into the selection.
\<close>

definition initial_state_v1 :: "props \<Rightarrow> Date \<Rightarrow> state" where
  "initial_state_v1 p today =
     \<lparr> selectedDate = (case value_prop p of None \<Rightarrow> Some today | Some v \<Rightarrow> Some v),
       currentYear =
         (case value_prop p of
            None \<Rightarrow> getFullYear today
          | Some v \<Rightarrow> num_or (getFullYear v) (getFullYear today)),
       currentMonth =
         (case value_prop p of
            None \<Rightarrow> getMonth today
          | Some v \<Rightarrow> num_or (getMonth v) (getMonth today)),
       isOpen = False,
       viewMode = (if includeDays p then Days else Months),
       changes = [] \<rparr>"

definition value_effect_v1 :: "props \<Rightarrow> state \<Rightarrow> state" where
  "value_effect_v1 p s = s\<lparr>selectedDate := value_prop p\<rparr>"

definition mount_v1 :: "props \<Rightarrow> Date \<Rightarrow> state" where
  "mount_v1 p today = value_effect_v1 p (initial_state_v1 p today)"

subsection \<open>Derived values of a render\<close>

definition yearRange :: "state \<Rightarrow> int list" where
  "yearRange s = map (\<lambda>i. currentYear s - 10 + int i) [0..<20]"

definition formatDate :: "props \<Rightarrow> Date option \<Rightarrow> string" where
  "formatDate p date =
     (case date of
        None \<Rightarrow> []
      | Some d \<Rightarrow>
          (if includeDays p
           then Number_toString (getDate d) @ '' '' @ monthNames ! nat (getMonth d) @ '' ''
                  @ Number_toString (getFullYear d)
           else monthNames ! nat (getMonth d) @ '' '' @ Number_toString (getFullYear d)))"

definition formatDisplay :: "props \<Rightarrow> Date option \<Rightarrow> string" where
  "formatDisplay p date =
     (case date of
        None \<Rightarrow> []
      | Some d \<Rightarrow>
          (case formatString p of
             None \<Rightarrow> formatDate p (Some d)
           | Some f \<Rightarrow> (if f = [] then formatDate p (Some d) else formatDateByString d f)))"

definition isDateInRange :: "Date option \<Rightarrow> Date option \<Rightarrow> Date \<Rightarrow> bool" where
  "isDateInRange mn mx date =
     (if (case mn of None \<Rightarrow> False | Some m \<Rightarrow> getTime date < getTime m) then False
      else if (case mx of None \<Rightarrow> False | Some m \<Rightarrow> getTime date > getTime m) then False
      else True)"

text \<open>The text of the inline trigger, in the second and in the first version.\<close>

definition trigger_text :: "props \<Rightarrow> state \<Rightarrow> string" where
  "trigger_text p s =
     (case selectedDate s of None \<Rightarrow> placeholder p | Some d \<Rightarrow> formatDisplay p (Some d))"

definition trigger_text_v1 :: "props \<Rightarrow> state \<Rightarrow> string" where
  "trigger_text_v1 p s =
     (case selectedDate s of None \<Rightarrow> placeholder p | Some d \<Rightarrow> formatDate p (Some d))"

text \<open>The \<^verbatim>\<open>isDisabled\<close> of a cell of the month grid, the year grid and the day grid.\<close>

definition month_isDisabled :: "(string \<Rightarrow> int option) \<Rightarrow> props \<Rightarrow> state \<Rightarrow> int \<Rightarrow> bool" where
  "month_isDisabled parse p s index =
     (let monthDate = new_Date (currentYear s) index 1
      in \<not> isDateInRange (min_bound parse p) (max_bound parse p) monthDate)"

definition year_isDisabled :: "(string \<Rightarrow> int option) \<Rightarrow> props \<Rightarrow> int \<Rightarrow> bool" where
  "year_isDisabled parse p year =
     (let yearDate = new_Date year 0 1
      in \<not> isDateInRange (min_bound parse p) (max_bound parse p) yearDate)"

definition day_isDisabled :: "(string \<Rightarrow> int option) \<Rightarrow> props \<Rightarrow> state \<Rightarrow> int \<Rightarrow> bool" where
  "day_isDisabled parse p s day =
     (let dayDate = new_Date (currentYear s) (currentMonth s) day
      in \<not> isDateInRange (min_bound parse p) (max_bound parse p) dayDate)"

subsection \<open>Handlers\<close>

text \<open>
  Each handler runs on the state of the render that created it and returns the state
  after its updates; a call \<^verbatim>\<open>onChange?.(newDate)\<close> appends to \<open>changes\<close> when a
  callback was supplied.
\<close>

definition notify :: "props \<Rightarrow> Date \<Rightarrow> Date list \<Rightarrow> Date list" where
  "notify p d cs = (if onChange p then cs @ [d] else cs)"

definition handleDaySelect :: "(string \<Rightarrow> int option) \<Rightarrow> props \<Rightarrow> state \<Rightarrow> int \<Rightarrow> state" where
  "handleDaySelect parse p s day =
     (let newDate = new_Date (currentYear s) (currentMonth s) day in
      if \<not> isDateInRange (min_bound parse p) (max_bound parse p) newDate then s
      else s\<lparr> selectedDate := Some newDate,
               changes := notify p newDate (changes s),
               isOpen := False,
               viewMode := (if includeDays p then Days else Months) \<rparr>)"

definition handleMonthSelect :: "(string \<Rightarrow> int option) \<Rightarrow> props \<Rightarrow> state \<Rightarrow> int \<Rightarrow> state" where
  "handleMonthSelect parse p s monthIndex =
     (if includeDays p then s\<lparr> currentMonth := monthIndex, viewMode := Days \<rparr>
      else
        (let newDate = new_Date (currentYear s) monthIndex 1 in
         if \<not> isDateInRange (min_bound parse p) (max_bound parse p) newDate then s
         else s\<lparr> selectedDate := Some newDate,
                  changes := notify p newDate (changes s),
                  isOpen := False \<rparr>))"

definition handleYearSelect :: "state \<Rightarrow> int \<Rightarrow> state" where
  "handleYearSelect s year = s\<lparr> currentYear := year, viewMode := Months \<rparr>"

definition navigateYear :: "state \<Rightarrow> direction \<Rightarrow> state" where
  "navigateYear s dir =
     (let increment = (if viewMode s = Years then 20 else 1)
      in s\<lparr> currentYear := currentYear s + (if dir = Prev then - increment else increment) \<rparr>)"

definition navigateMonth :: "state \<Rightarrow> direction \<Rightarrow> state" where
  "navigateMonth s dir =
     (if dir = Next then
        (if currentMonth s = 11
         then s\<lparr> currentMonth := 0, currentYear := currentYear s + 1 \<rparr>
         else s\<lparr> currentMonth := currentMonth s + 1 \<rparr>)
      else
        (if currentMonth s = 0
         then s\<lparr> currentMonth := 11, currentYear := currentYear s - 1 \<rparr>
         else s\<lparr> currentMonth := currentMonth s - 1 \<rparr>))"

text \<open>
  The remaining events: a press outside the container, a click on the overlay, a click
  on the inline trigger, the \<^verbatim>\<open>open\<close> action handed to the render function, and the two
  header buttons that change the view.
\<close>

definition handleClickOutside :: "state \<Rightarrow> state" where
  "handleClickOutside s = s\<lparr> isOpen := False, viewMode := Months \<rparr>"

definition overlay_click :: "state \<Rightarrow> state" where
  "overlay_click s = s\<lparr> isOpen := False \<rparr>"

definition trigger_click :: "props \<Rightarrow> state \<Rightarrow> state" where
  "trigger_click p s = (if \<not> disabled p then s\<lparr> isOpen := \<not> isOpen s \<rparr> else s)"

definition open_action :: "props \<Rightarrow> state \<Rightarrow> state" where
  "open_action p s = (if \<not> disabled p then s\<lparr> isOpen := True \<rparr> else s)"

definition show_years :: "state \<Rightarrow> state" where
  "show_years s = s\<lparr> viewMode := Years \<rparr>"

definition show_months :: "state \<Rightarrow> state" where
  "show_months s = s\<lparr> viewMode := Months \<rparr>"

section \<open>Example configurations\<close>

text \<open>
  A configuration without day granularity whose minimum bound is 10 January 2024, a
  parser that rejects every string, and a state showing the months of 2024.
\<close>

definition no_parse :: "string \<Rightarrow> int option" where
  "no_parse s = None"

definition example_props :: props where
  "example_props =
     \<lparr> value_prop = None, onChange = True, placeholder = ''Select Date'', disabled = False,
       includeDays = False, minDate = Some (DateObj (new_Date 2024 0 10)), maxDate = None,
       formatString = None, hideInput = False \<rparr>"

definition example_state :: state where
  "example_state =
     \<lparr> selectedDate = None, currentYear = 2024, currentMonth = 0, isOpen = True,
       viewMode = Months, changes = [] \<rparr>"

text \<open>
  The same configuration with day granularity; with the value 15 January 2024; and a
  day of creation, 2 November 2026.
\<close>

definition day_props :: props where
  "day_props = example_props\<lparr> includeDays := True \<rparr>"

definition january_props :: props where
  "january_props = example_props\<lparr> value_prop := Some (new_Date 2024 0 15) \<rparr>"

definition example_today :: Date where
  "example_today = new_Date 2026 10 2"

text \<open>
  The configuration without bounds, and the one whose minimum bound is 1 January 1940.
\<close>

definition unbounded_props :: props where
  "unbounded_props = example_props\<lparr> minDate := None \<rparr>"

definition props_min_1940 :: props where
  "props_min_1940 = example_props\<lparr> minDate := Some (DateObj (new_Date 1940 0 1)) \<rparr>"

text \<open>
  The last one with day granularity, and the first configuration with a value of
  year 0, the 15th of June.
\<close>

definition day_props_1940 :: props where
  "day_props_1940 = props_min_1940\<lparr> includeDays := True \<rparr>"


section \<open>The calendar, as a reference\<close>

text \<open>
  The leap-year rule of the Gregorian calendar (a century is a leap year when it is
  divisible by 400, any other year when it is divisible by 4), and the length of the
  zero-based month \<open>m\<close> of year \<open>y\<close>.
\<close>

definition leap_year :: "int \<Rightarrow> bool" where
  "leap_year y = (if y mod 100 = 0 then y mod 400 = 0 else y mod 4 = 0)"

definition month_length :: "int \<Rightarrow> int \<Rightarrow> int" where
  "month_length y m =
     (if m = 1 then (if leap_year y then 29 else 28)
      else if m = 3 \<or> m = 5 \<or> m = 8 \<or> m = 10 then 30
      else 31)"

text \<open>
  The date with the calendar fields \<open>y\<close>, \<open>m\<close>, \<open>d\<close>: what the constructor builds
  when it does not re-read the year, and what \<^verbatim>\<open>setFullYear(y, m, d)\<close> builds for every
  year.
\<close>

definition civil_Date :: "int \<Rightarrow> int \<Rightarrow> int \<Rightarrow> Date" where
  "civil_Date y m d = Date (MakeDay y m d * msPerDay)"

section \<open>Pattern formatting, as a reference\<close>

text \<open>
  Pattern formatting as the specification words it, in one pass over the pattern from
  left to right: an occurrence of \<^verbatim>\<open>yyyy\<close>, \<^verbatim>\<open>mm\<close> or \<^verbatim>\<open>dd\<close> is replaced by the
  text given for it, and any other character is copied.
\<close>

fun substitute_tokens :: "string \<Rightarrow> string \<Rightarrow> string \<Rightarrow> string \<Rightarrow> string" where
  "substitute_tokens yyyy mm dd [] = []"
| "substitute_tokens yyyy mm dd (c # cs) =
     (if take 4 (c # cs) = ''yyyy'' then yyyy @ substitute_tokens yyyy mm dd (drop 4 (c # cs))
      else if take 2 (c # cs) = ''mm'' then mm @ substitute_tokens yyyy mm dd (drop 2 (c # cs))
      else if take 2 (c # cs) = ''dd'' then dd @ substitute_tokens yyyy mm dd (drop 2 (c # cs))
      else c # substitute_tokens yyyy mm dd cs)"

text \<open>
  Two notions for the proofs about \<open>replace_g\<close>: a string that begins with a given
  character, and the set of the ten digits.
\<close>

definition starts_with :: "char \<Rightarrow> string \<Rightarrow> bool" where
  "starts_with c xs = (case xs of [] \<Rightarrow> False | x # _ \<Rightarrow> x = c)"

definition digit_chars :: "char set" where
  "digit_chars = set ''0123456789''"

section \<open>Properties of the Date model\<close>

subsection \<open>The year found by the search is the year of the standard\<close>

lemma year_down_le: "DayFromYear (year_down d y) \<le> d"
proof (induction d y rule: year_down.induct)
  case (1 d y)
  then show ?case by (subst year_down.simps) auto
qed

lemma year_up_bounds:
  "DayFromYear y \<le> d \<Longrightarrow>
   DayFromYear (year_up d y) \<le> d \<and> d < DayFromYear (year_up d y + 1)"
proof (induction d y rule: year_up.induct)
  case (1 d y)
  show ?case
  proof (cases "DayFromYear (y + 1) \<le> d")
    case True
    then show ?thesis using "1.IH" by (subst (1 2) year_up.simps) simp
  next
    case False
    then show ?thesis using "1.prems" by (subst (1 2) year_up.simps) simp
  qed
qed

lemma YearFromDay_bounds:
  "DayFromYear (YearFromDay d) \<le> d \<and> d < DayFromYear (YearFromDay d + 1)"
  unfolding YearFromDay_def by (rule year_up_bounds) (rule year_down_le)

lemma YearFromDay_unique:
  assumes "DayFromYear y \<le> d" and "d < DayFromYear (y + 1)"
  shows "YearFromDay d = y"
proof (rule ccontr)
  let ?z = "YearFromDay d"
  assume ne: "?z \<noteq> y"
  have z: "DayFromYear ?z \<le> d" "d < DayFromYear (?z + 1)"
    using YearFromDay_bounds [of d] by simp_all
  from ne consider "?z + 1 \<le> y" | "y + 1 \<le> ?z" by linarith
  then show False
  proof cases
    case 1
    then have "DayFromYear (?z + 1) \<le> DayFromYear y" by (rule DayFromYear_mono)
    with z assms show False by simp
  next
    case 2
    then have "DayFromYear (y + 1) \<le> DayFromYear ?z" by (rule DayFromYear_mono)
    with z assms show False by simp
  qed
qed

subsection \<open>Reading back the fields of a constructed date\<close>


lemma Day_mult: "Day (k * msPerDay) = k"
  by (simp add: Day_def msPerDay_def)

lemma leap_abs:
  fixes a b c :: bool
  shows "(if (if \<not> a then (365::int) else if \<not> b then 366 else if \<not> c then 365 else 366) = 365
          then (0::int) else 1) =
         (if \<not> a then 0 else if \<not> b then 1 else if \<not> c then 0 else 1)"
  by simp

lemma leap_abs2:
  fixes a b c :: bool
  assumes "b \<longrightarrow> a" "c \<longrightarrow> b"
  shows "(if \<not> a then (0::int) else if \<not> b then 1 else if \<not> c then 0 else 1) =
         (if (if b then c else a) then 1 else 0)"
  using assms by (cases a; cases b; cases c; simp)

lemma InLeapYear_leap_year: "InLeapYear y = (if leap_year y then 1 else 0)"
proof -
  have ba: "y mod 100 = 0 \<longrightarrow> y mod 4 = 0" using mod100_mod4 [of y] by blast
  have cb: "y mod 400 = 0 \<longrightarrow> y mod 100 = 0" using mod400_mod100 [of y] by blast
  show ?thesis
    unfolding InLeapYear_def DaysInYear_def leap_year_def
    by (rule trans [OF leap_abs leap_abs2 [OF ba cb]])
qed

lemma leap_abs3:
  fixes a b c :: bool
  assumes "b \<longrightarrow> a" "c \<longrightarrow> b"
  shows "(if b then c else a) = (a \<and> (\<not> b \<or> c))"
  using assms by (cases a; cases b; cases c; simp)

lemma leap_year_rule:
  "leap_year y \<longleftrightarrow> y mod 4 = 0 \<and> (y mod 100 \<noteq> 0 \<or> y mod 400 = 0)"
proof -
  have ba: "y mod 100 = 0 \<longrightarrow> y mod 4 = 0" using mod100_mod4 [of y] by blast
  have cb: "y mod 400 = 0 \<longrightarrow> y mod 100 = 0" using mod400_mod100 [of y] by blast
  show ?thesis unfolding leap_year_def by (rule leap_abs3 [OF ba cb])
qed

lemma InLeapYear_cases: "InLeapYear y = 0 \<or> InLeapYear y = 1"
  by (simp add: InLeapYear_def)

lemma DaysInYear_InLeapYear: "DaysInYear y = 365 + InLeapYear y"
  using DaysInYear_cases [of y] by (auto simp: InLeapYear_def)

lemma month_length_alt:
  "month_length y m =
     (if m = 1 then 28 + InLeapYear y
      else if m = 3 \<or> m = 5 \<or> m = 8 \<or> m = 10 then 30
      else 31)"
  by (simp add: month_length_def InLeapYear_leap_year)

lemma month_disj:
  fixes m :: int
  shows "0 \<le> m \<Longrightarrow> m \<le> 11 \<Longrightarrow>
    m = 0 \<or> m = 1 \<or> m = 2 \<or> m = 3 \<or> m = 4 \<or> m = 5 \<or>
    m = 6 \<or> m = 7 \<or> m = 8 \<or> m = 9 \<or> m = 10 \<or> m = 11"
  by arith

lemma month_cases:
  fixes m :: int
  assumes "0 \<le> m" "m \<le> 11"
  obtains "m = 0" | "m = 1" | "m = 2" | "m = 3" | "m = 4" | "m = 5"
        | "m = 6" | "m = 7" | "m = 8" | "m = 9" | "m = 10" | "m = 11"
  using month_disj [OF assms] by blast

lemma DaysBeforeMonth_succ:
  assumes "0 \<le> m" "m \<le> 10"
  shows "DaysBeforeMonth (InLeapYear y) (m + 1) =
         DaysBeforeMonth (InLeapYear y) m + month_length y m"
proof -
  from assms have "0 \<le> m" "m \<le> 11" by simp_all
  then show ?thesis
    using assms by (cases rule: month_cases) (simp_all add: DaysBeforeMonth_def month_length_alt)
qed

lemma DaysBeforeMonth_last:
  "DaysBeforeMonth (InLeapYear y) 11 + month_length y 11 = DaysInYear y"
  by (simp add: DaysBeforeMonth_def month_length_alt DaysInYear_InLeapYear)

lemma DaysBeforeMonth_range:
  assumes "0 \<le> m" "m \<le> 11" "1 \<le> dt" "dt \<le> month_length y m"
  shows "0 \<le> DaysBeforeMonth (InLeapYear y) m + dt - 1"
    and "DaysBeforeMonth (InLeapYear y) m + dt - 1 < DaysInYear y"
  using assms(3,4) InLeapYear_cases [of y]
  by (cases rule: month_cases [OF assms(1,2)];
      auto simp: DaysBeforeMonth_def month_length_alt DaysInYear_InLeapYear)+

lemma MakeDay_in_month:
  assumes "0 \<le> m" "m \<le> 11"
  shows "MakeDay y m dt = DayFromYear y + DaysBeforeMonth (InLeapYear y) m + dt - 1"
proof -
  from assms have "m div 12 = 0" "m mod 12 = m" by simp_all
  then show ?thesis by (simp add: MakeDay_def)
qed

lemma YearFromDay_MakeDay:
  assumes "0 \<le> m" "m \<le> 11" "1 \<le> dt" "dt \<le> month_length y m"
  shows "YearFromDay (MakeDay y m dt) = y"
proof (rule YearFromDay_unique)
  show "DayFromYear y \<le> MakeDay y m dt"
    using DaysBeforeMonth_range(1) [OF assms] by (simp add: MakeDay_in_month [OF assms(1,2)])
  show "MakeDay y m dt < DayFromYear (y + 1)"
    using DaysBeforeMonth_range(2) [OF assms]
    by (simp add: MakeDay_in_month [OF assms(1,2)] DayFromYear_step)
qed

lemma fields_MakeDay:
  assumes "0 \<le> m" "m \<le> 11" "1 \<le> dt" "dt \<le> month_length y m"
  defines "t \<equiv> MakeDay y m dt * msPerDay"
  shows "YearFromTime t = y" and "MonthFromTime t = m" and "DateFromTime t = dt"
proof -
  show yr: "YearFromTime t = y"
    by (simp add: t_def YearFromTime_def Day_mult YearFromDay_MakeDay [OF assms(1-4)])
  have dwy: "DayWithinYear t = DaysBeforeMonth (InLeapYear y) m + dt - 1"
    by (simp add: DayWithinYear_def yr) (simp add: t_def Day_mult MakeDay_in_month [OF assms(1,2)])
  show mo: "MonthFromTime t = m"
    unfolding MonthFromTime_def dwy yr Let_def
    using assms(3,4) InLeapYear_cases [of y]
    by (cases rule: month_cases [OF assms(1,2)];
        auto simp: DaysBeforeMonth_def month_length_alt)
  show "DateFromTime t = dt"
    unfolding DateFromTime_def dwy yr mo Let_def
    by (cases rule: month_cases [OF assms(1,2)]; simp add: DaysBeforeMonth_def)
qed

subsection \<open>The fields of any date\<close>

text \<open>The month of a date is from 0 to 11 and its day from 1 to 31.\<close>

lemma DayWithinYear_range:
  "0 \<le> DayWithinYear t" "DayWithinYear t < 365 + InLeapYear (YearFromTime t)"
  using YearFromDay_bounds [of "Day t"]
  by (simp_all add: DayWithinYear_def YearFromTime_def DayFromYear_step DaysInYear_InLeapYear)

lemma MonthFromTime_range: "0 \<le> MonthFromTime t \<and> MonthFromTime t \<le> 11"
  by (simp add: MonthFromTime_def Let_def)

lemma DateFromTime_range: "1 \<le> DateFromTime t \<and> DateFromTime t \<le> 31"
proof -
  define d where "d = DayWithinYear t"
  define l where "l = InLeapYear (YearFromTime t)"
  have d: "0 \<le> d" "d < 365 + l"
    using DayWithinYear_range [of t] by (simp_all add: d_def l_def)
  have l: "l = 0 \<or> l = 1" unfolding l_def by (rule InLeapYear_cases)
  have m: "MonthFromTime t =
      (if d < 31 then 0 else if d < 59 + l then 1 else if d < 90 + l then 2
       else if d < 120 + l then 3 else if d < 151 + l then 4 else if d < 181 + l then 5
       else if d < 212 + l then 6 else if d < 243 + l then 7 else if d < 273 + l then 8
       else if d < 304 + l then 9 else if d < 334 + l then 10 else 11)"
    by (simp add: MonthFromTime_def d_def l_def Let_def)
  have "DateFromTime t =
      (if d < 31 then d + 1 else if d < 59 + l then d - 30 else if d < 90 + l then d - 58 - l
       else if d < 120 + l then d - 89 - l else if d < 151 + l then d - 119 - l
       else if d < 181 + l then d - 150 - l else if d < 212 + l then d - 180 - l
       else if d < 243 + l then d - 211 - l else if d < 273 + l then d - 242 - l
       else if d < 304 + l then d - 272 - l else if d < 334 + l then d - 303 - l
       else d - 333 - l)"
    unfolding DateFromTime_def m d_def [symmetric] l_def [symmetric] Let_def by simp
  then show ?thesis using d l by auto
qed

subsection \<open>The constructor and the length of a month\<close>

text \<open>
  A date built from a year outside 0..99, a month from 0 to 11 and a day of that month
  has these fields; a year from 0 to 99 comes back as 1900 + year. Day 0 of the next
  month is the last day of the month, so \<open>getDaysInMonth\<close> is the length of the month
  for every year but 0: the years 1 to 99 are read as 1901 to 1999, which have the same
  leap years, and 0 is read as 1900, which is not a leap year.
\<close>

lemma month_length_pos: "1 \<le> month_length y m"
  by (simp add: month_length_def)

lemma month_length_range: "month_length y m \<in> {28, 29, 30, 31}"
  by (simp add: month_length_def)

lemma february_length: "month_length y 1 = 29 \<longleftrightarrow> leap_year y"
  by (simp add: month_length_def)

lemma civil_Date_fields:
  assumes "0 \<le> m" "m \<le> 11" "1 \<le> d" "d \<le> month_length y m"
  shows "getFullYear (civil_Date y m d) = y"
    and "getMonth (civil_Date y m d) = m"
    and "getDate (civil_Date y m d) = d"
  using fields_MakeDay [OF assms]
  by (simp_all add: civil_Date_def getFullYear_def getMonth_def getDate_def)

lemma new_Date_civil:
  "new_Date y m d = civil_Date (if 0 \<le> y \<and> y \<le> 99 then 1900 + y else y) m d"
  by (simp add: new_Date_def civil_Date_def Let_def)

lemma new_Date_plain:
  assumes "\<not> (0 \<le> y \<and> y \<le> 99)"
  shows "new_Date y m d = civil_Date y m d"
proof -
  have "(if 0 \<le> y \<and> y \<le> 99 then 1900 + y else y) = y"
    using assms by (rule if_not_P)
  then show ?thesis by (simp only: new_Date_civil)
qed

lemma new_Date_century:
  assumes "0 \<le> y" "y \<le> 99"
  shows "new_Date y m d = civil_Date (1900 + y) m d"
  using assms by (simp add: new_Date_civil)

lemma new_Date_fields:
  assumes "\<not> (0 \<le> y \<and> y \<le> 99)" "0 \<le> m" "m \<le> 11" "1 \<le> d" "d \<le> month_length y m"
  shows "getFullYear (new_Date y m d) = y"
    and "getMonth (new_Date y m d) = m"
    and "getDate (new_Date y m d) = d"
  using civil_Date_fields [OF assms(2-5)] by (simp_all add: new_Date_plain [OF assms(1)])

lemma new_Date_two_digit_year:
  assumes "0 \<le> y" "y \<le> 99" "0 \<le> m" "m \<le> 11"
  shows "getFullYear (new_Date y m 1) = 1900 + y"
  using civil_Date_fields(1) [OF assms(3,4) _ month_length_pos, of "1900 + y"]
  by (simp add: new_Date_century [OF assms(1,2)])

lemma MakeDay_next_month_0:
  assumes "0 \<le> m" "m \<le> 11"
  shows "MakeDay y (m + 1) 0 = MakeDay y m (month_length y m)"
proof (cases "m = 11")
  case True
  have "MakeDay y 12 0 = DayFromYear (y + 1) - 1"
    by (simp add: MakeDay_def DaysBeforeMonth_def)
  moreover have "MakeDay y 11 (month_length y 11) = DayFromYear y + DaysInYear y - 1"
    using DaysBeforeMonth_last [of y] by (simp add: MakeDay_in_month)
  ultimately show ?thesis using True by (simp add: DayFromYear_step)
next
  case False
  with assms have m: "0 \<le> m" "m \<le> 10" by simp_all
  then have m1: "0 \<le> m + 1" "m + 1 \<le> 11" by simp_all
  show ?thesis
    by (simp add: MakeDay_in_month [OF m1] MakeDay_in_month [OF assms] DaysBeforeMonth_succ [OF m])
qed

lemma last_day_of_month:
  assumes "0 \<le> m" "m \<le> 11"
  shows "getDate (civil_Date y (m + 1) 0) = month_length y m"
proof -
  have "civil_Date y (m + 1) 0 = civil_Date y m (month_length y m)"
    by (simp add: civil_Date_def MakeDay_next_month_0 [OF assms])
  then show ?thesis
    using civil_Date_fields(3) [OF assms month_length_pos, of y] by simp
qed

lemma leap_year_two_digit:
  assumes "1 \<le> y" "y \<le> 99"
  shows "leap_year (1900 + y) = leap_year y"
proof -
  have a: "(1900 + y) mod 4 = y mod 4" by presburger
  have "1900 + y = y + 100 * 19" by simp
  then have "(1900 + y) mod 100 = y mod 100" by (simp only: mod_mult_self2)
  moreover have "y mod 100 = y" using assms by simp
  ultimately have b: "(1900 + y) mod 100 \<noteq> 0" "y mod 100 \<noteq> 0" using assms by simp_all
  show ?thesis unfolding leap_year_def a using b by simp
qed

lemma getDaysInMonth_month_length:
  assumes "y \<noteq> 0" "0 \<le> m" "m \<le> 11"
  shows "getDaysInMonth y m = month_length y m"
proof (cases "0 \<le> y \<and> y \<le> 99")
  case True
  with assms(1) have y: "1 \<le> y" "y \<le> 99" by simp_all
  from True have c: "0 \<le> y" "y \<le> 99" by simp_all
  have "getDaysInMonth y m = month_length (1900 + y) m"
    using last_day_of_month [OF assms(2,3), of "1900 + y"]
    by (simp add: getDaysInMonth_def new_Date_century [OF c])
  then show ?thesis by (simp add: month_length_def leap_year_two_digit [OF y])
next
  case False
  show ?thesis
    using last_day_of_month [OF assms(2,3), of y]
    by (simp add: getDaysInMonth_def new_Date_plain [OF False])
qed

text \<open>
  C6. At year 0, month 1, \<open>getDaysInMonth\<close> is 28, although year 0 satisfies the
  leap-year rule (it is divisible by 400) and its February has 29 days. By
  \<open>getDaysInMonth_month_length\<close> this is the only year at which the function differs
  from the length of the month.
\<close>

theorem getDaysInMonth_year_0:
  "getDaysInMonth 0 1 = 28 \<and> leap_year 0 \<and> month_length 0 1 = 29"
  by code_simp

section \<open>Range validation\<close>

text \<open>
  C2. Whatever the two optional bounds and the candidate, \<open>isDateInRange\<close> holds exactly
  when the candidate is not strictly before the minimum and not strictly after the
  maximum, the dates being compared by their time values. A candidate equal to a bound
  is in range, and an absent bound puts no constraint on its side.
\<close>

theorem isDateInRange_inclusive:
  "isDateInRange mn mx d =
     ((case mn of None \<Rightarrow> True | Some lo \<Rightarrow> \<not> getTime d < getTime lo) \<and>
      (case mx of None \<Rightarrow> True | Some hi \<Rightarrow> \<not> getTime hi < getTime d)) \<and>
   isDateInRange (Some d) None d \<and> isDateInRange None (Some d) d \<and>
   isDateInRange (Some d) (Some d) d \<and> isDateInRange None None d \<and>
   isDateInRange None mx d = (case mx of None \<Rightarrow> True | Some hi \<Rightarrow> \<not> getTime hi < getTime d) \<and>
   isDateInRange mn None d = (case mn of None \<Rightarrow> True | Some lo \<Rightarrow> \<not> getTime d < getTime lo)"
  by (simp add: isDateInRange_def split: option.splits)

text \<open>
  When the date that a handler builds from the cursor is out of range, the handler
  returns the state it was given: the selection, the cursor, the open flag, the view
  mode and the calls of the change callback are unchanged. With the minimum
  10 January 2024 this rejects the 5th of January 2024 and, without day granularity,
  January 2024.
\<close>

lemma rejected_date_leaves_state:
  "(\<not> isDateInRange (min_bound parse p) (max_bound parse p)
        (new_Date (currentYear s) (currentMonth s) day)
      \<longrightarrow> handleDaySelect parse p s day = s) \<and>
   (\<not> includeDays p \<and>
    \<not> isDateInRange (min_bound parse p) (max_bound parse p)
        (new_Date (currentYear s) monthIndex 1)
      \<longrightarrow> handleMonthSelect parse p s monthIndex = s)"
  by (simp add: handleDaySelect_def handleMonthSelect_def Let_def)

lemma example_out_of_range:
  "\<not> isDateInRange (min_bound no_parse day_props) (max_bound no_parse day_props)
       (new_Date 2024 0 5)"
  "\<not> isDateInRange (min_bound no_parse example_props) (max_bound no_parse example_props)
       (new_Date 2024 0 1)"
  by code_simp+

lemma example_rejected_picks:
  "handleDaySelect no_parse day_props example_state 5 = example_state \<and>
   handleMonthSelect no_parse example_props example_state 0 = example_state"
proof -
  have y: "currentYear example_state = 2024" and m: "currentMonth example_state = 0"
    by (simp_all add: example_state_def)
  have i: "\<not> includeDays example_props" by (simp add: example_props_def)
  show ?thesis
    using rejected_date_leaves_state [of no_parse day_props example_state 5 0]
      rejected_date_leaves_state [of no_parse example_props example_state 5 0]
      example_out_of_range i
    by (simp add: y m)
qed

text \<open>
  The date that is tested is the one the constructor builds. For a cursor year outside
  0..99 it is the date the user picks, the day of the cursor month or the first of the
  picked month in the cursor year, so a pick of a date out of range changes nothing.
\<close>

lemma out_of_range_pick_ignored:
  assumes "\<not> (0 \<le> currentYear s \<and> currentYear s \<le> 99)"
  shows "\<not> isDateInRange (min_bound parse p) (max_bound parse p)
            (civil_Date (currentYear s) (currentMonth s) day)
         \<Longrightarrow> handleDaySelect parse p s day = s"
    and "\<not> includeDays p \<Longrightarrow>
         \<not> isDateInRange (min_bound parse p) (max_bound parse p)
            (civil_Date (currentYear s) monthIndex 1)
         \<Longrightarrow> handleMonthSelect parse p s monthIndex = s"
  by (simp_all add: handleDaySelect_def handleMonthSelect_def Let_def new_Date_plain [OF assms])

text \<open>
  C1. With the minimum bound 1 January 1940 and the cursor at January of year 50, the
  5th of January of year 50 and the first of that January are before the minimum, yet
  picking day 5 (with day granularity) stores 5 January 1950, calls the change callback
  with it and closes the popup, and picking January (without day granularity) does the
  same with 1 January 1950: the handlers test the date the constructor builds, which
  is in 1950.
\<close>

theorem pick_before_minimum_year_50:
  "includeDays day_props_1940 \<and>
   \<not> isDateInRange (min_bound no_parse day_props_1940) (max_bound no_parse day_props_1940)
       (civil_Date 50 0 5) \<and>
   selectedDate (handleDaySelect no_parse day_props_1940 (example_state\<lparr> currentYear := 50 \<rparr>) 5)
     = Some (civil_Date 1950 0 5) \<and>
   changes (handleDaySelect no_parse day_props_1940 (example_state\<lparr> currentYear := 50 \<rparr>) 5)
     = [civil_Date 1950 0 5] \<and>
   isOpen (example_state\<lparr> currentYear := 50 \<rparr>) \<and>
   \<not> isOpen (handleDaySelect no_parse day_props_1940 (example_state\<lparr> currentYear := 50 \<rparr>) 5) \<and>
   \<not> includeDays props_min_1940 \<and>
   \<not> isDateInRange (min_bound no_parse props_min_1940) (max_bound no_parse props_min_1940)
       (civil_Date 50 0 1) \<and>
   selectedDate (handleMonthSelect no_parse props_min_1940 (example_state\<lparr> currentYear := 50 \<rparr>) 0)
     = Some (civil_Date 1950 0 1) \<and>
   changes (handleMonthSelect no_parse props_min_1940 (example_state\<lparr> currentYear := 50 \<rparr>) 0)
     = [civil_Date 1950 0 1] \<and>
   \<not> isOpen (handleMonthSelect no_parse props_min_1940 (example_state\<lparr> currentYear := 50 \<rparr>) 0)"
  by code_simp

section \<open>The external value\<close>

text \<open>
  The effect on the value, run at the mount and after every change of the value, makes
  the stored selection the value, absent when the value is absent, and puts the year
  and the month of a present value in the cursor.
\<close>

lemma value_effect_resyncs:
  "selectedDate (mount p today) = value_prop p \<and>
   selectedDate (value_effect p s) = value_prop p \<and>
   (value_prop p = Some v \<longrightarrow>
      currentYear (mount p today) = getFullYear v \<and>
      currentMonth (mount p today) = getMonth v \<and>
      currentYear (value_effect p s) = getFullYear v \<and>
      currentMonth (value_effect p s) = getMonth v)"
  by (simp add: mount_def value_effect_def split: option.splits)

lemma january_fields:
  "getFullYear (new_Date 2024 0 15) = 2024" "getMonth (new_Date 2024 0 15) = 0"
  by code_simp+

lemma mount_january_example:
  "selectedDate (mount january_props example_today) = Some (new_Date 2024 0 15) \<and>
   currentYear (mount january_props example_today) = 2024 \<and>
   currentMonth (mount january_props example_today) = 0 \<and>
   currentYear (value_effect january_props example_state) = 2024 \<and>
   currentMonth (value_effect january_props example_state) = 0"
proof -
  have v: "value_prop january_props = Some (new_Date 2024 0 15)"
    by (simp add: january_props_def)
  show ?thesis
    using value_effect_resyncs
      [of january_props example_today example_state "new_Date 2024 0 15"] v
    by (simp add: january_fields)
qed

text \<open>
  The initial state takes the selection from the value, but seeds the cursor with
  \<^verbatim>\<open>value?.getFullYear() || today.getFullYear()\<close> and
  \<^verbatim>\<open>value?.getMonth() || today.getMonth()\<close>: a month 0 or a year 0 of the value is
  falsy, and the cursor gets the month or the year of today instead.
\<close>

lemma initial_state_selection: "selectedDate (initial_state p today) = value_prop p"
  by (simp add: initial_state_def)

lemma initial_state_cursor:
  assumes "value_prop p = Some v" "getFullYear v \<noteq> 0" "getMonth v \<noteq> 0"
  shows "currentYear (initial_state p today) = getFullYear v"
    and "currentMonth (initial_state p today) = getMonth v"
  using assms by (simp_all add: initial_state_def num_or_def)

lemma initial_state_falsy_month:
  "value_prop p = Some v \<Longrightarrow> getMonth v = 0 \<Longrightarrow>
   currentMonth (initial_state p today) = getMonth today"
  by (simp add: initial_state_def num_or_def)

lemma initial_state_falsy_year:
  "value_prop p = Some v \<Longrightarrow> getFullYear v = 0 \<Longrightarrow>
   currentYear (initial_state p today) = getFullYear today"
  by (simp add: initial_state_def num_or_def)


section \<open>Creation without a value\<close>

text \<open>
  In the second version the selection is absent from the initial state on and the
  inline trigger shows the placeholder. In the first version the selection is absent
  once the effect of the mount has run.
\<close>

lemma no_value_no_selection:
  "value_prop p = None \<longrightarrow>
     selectedDate (initial_state p today) = None \<and>
     trigger_text p (initial_state p today) = placeholder p \<and>
     selectedDate (mount p today) = None \<and>
     trigger_text p (mount p today) = placeholder p \<and>
     selectedDate (mount_v1 p today) = None \<and>
     trigger_text_v1 p (mount_v1 p today) = placeholder p"
  by (simp add: initial_state_def mount_def value_effect_def mount_v1_def value_effect_v1_def
      trigger_text_def trigger_text_v1_def)

lemma initial_state_v1_today:
  "value_prop p = None \<Longrightarrow> selectedDate (initial_state_v1 p today) = Some today"
  by (simp add: initial_state_v1_def)

text \<open>
  C9. Created on 2 November 2026 without a value, the first version of the component
  holds that day as its selection in the initial state (\<^verbatim>\<open>value || today\<close>), and its
  trigger shows a formatted date, not the placeholder.
\<close>

theorem initial_state_v1_no_value:
  "value_prop example_props = None \<and>
   placeholder example_props = ''Select Date'' \<and>
   selectedDate (initial_state_v1 example_props example_today) = Some (civil_Date 2026 10 2) \<and>
   trigger_text_v1 example_props (initial_state_v1 example_props example_today)
     = ''November 2026''"
  by code_simp

section \<open>Navigation\<close>

text \<open>
  C7. Next from month 11 gives month 0 of the following year, and previous from month 0
  gives month 11 of the year before; from any other month the month moves by one and the
  year stays (the rest of the state is untouched in every case). A cursor month from 0
  to 11 therefore stays from 0 to 11.
\<close>

theorem navigateMonth_wraps:
  "navigateMonth s Next =
     (if currentMonth s = 11 then s\<lparr> currentMonth := 0, currentYear := currentYear s + 1 \<rparr>
      else s\<lparr> currentMonth := currentMonth s + 1 \<rparr>) \<and>
   navigateMonth s Prev =
     (if currentMonth s = 0 then s\<lparr> currentMonth := 11, currentYear := currentYear s - 1 \<rparr>
      else s\<lparr> currentMonth := currentMonth s - 1 \<rparr>) \<and>
   (0 \<le> currentMonth s \<and> currentMonth s \<le> 11 \<longrightarrow>
      0 \<le> currentMonth (navigateMonth s dir) \<and> currentMonth (navigateMonth s dir) \<le> 11)"
  by (cases dir) (simp_all add: navigateMonth_def)

theorem navigateMonth_wraps_witness:
  "0 \<le> currentMonth (example_state\<lparr> currentMonth := 11 \<rparr>) \<and>
   currentMonth (example_state\<lparr> currentMonth := 11 \<rparr>) \<le> 11 \<and>
   currentMonth (navigateMonth (example_state\<lparr> currentMonth := 11 \<rparr>) Next) = 0 \<and>
   currentYear (navigateMonth (example_state\<lparr> currentMonth := 11 \<rparr>) Next) = 2025 \<and>
   currentMonth (navigateMonth example_state Prev) = 11 \<and>
   currentYear (navigateMonth example_state Prev) = 2023"
  using navigateMonth_wraps [of "example_state\<lparr> currentMonth := 11 \<rparr>" Next]
    navigateMonth_wraps [of example_state Prev]
  by (simp add: example_state_def)

text \<open>
  C8. The window of the year grid is the 20 consecutive years from the cursor year
  minus 10 to the cursor year plus 9, with the cursor year at index 10, the 11th
  entry. A step of the year navigation moves the cursor year by 20 while the year grid
  is shown and by 1 otherwise, backwards for previous and forwards for next.
\<close>

theorem yearRange_window:
  "yearRange s = [currentYear s - 10 .. currentYear s + 9] \<and>
   length (yearRange s) = 20 \<and>
   yearRange s ! 10 = currentYear s \<and>
   navigateYear s dir =
     s\<lparr> currentYear :=
          currentYear s + (if dir = Prev then - 1 else 1) * (if viewMode s = Years then 20 else 1) \<rparr>"
proof -
  have "[0..<20] = [0, 1, 2, 3, 4, 5, 6, 7, 8, 9, 10, 11, 12, 13, 14, 15, 16, 17, 18, 19::nat]"
    by (simp add: upt_rec)
  then have l: "yearRange s =
    [currentYear s - 10, currentYear s - 9, currentYear s - 8, currentYear s - 7,
     currentYear s - 6, currentYear s - 5, currentYear s - 4, currentYear s - 3,
     currentYear s - 2, currentYear s - 1, currentYear s, currentYear s + 1,
     currentYear s + 2, currentYear s + 3, currentYear s + 4, currentYear s + 5,
     currentYear s + 6, currentYear s + 7, currentYear s + 8, currentYear s + 9]"
    by (simp add: yearRange_def)
  have u: "[currentYear s - 10 .. currentYear s + 9] = yearRange s"
    unfolding l by (simp add: upto_rec1)
  have n: "length (yearRange s) = 20" by (simp add: yearRange_def)
  have i: "yearRange s ! 10 = currentYear s" by (simp add: yearRange_def)
  have nav: "navigateYear s dir =
     s\<lparr> currentYear :=
          currentYear s + (if dir = Prev then - 1 else 1) * (if viewMode s = Years then 20 else 1) \<rparr>"
    by (simp add: navigateYear_def Let_def)
  from u n i nav show ?thesis by simp
qed

section \<open>Selection\<close>

text \<open>
  A pick whose date is in range stores that date, calls the change callback once with
  it when there is one, and closes the popup; a pick of a month without day granularity
  leaves the view mode as it is.
\<close>

lemma handleMonthSelect_selects:
  assumes "\<not> includeDays p"
    and "isDateInRange (min_bound parse p) (max_bound parse p) (new_Date (currentYear s) i 1)"
  shows "handleMonthSelect parse p s i =
         s\<lparr> selectedDate := Some (new_Date (currentYear s) i 1),
            changes := (if onChange p then changes s @ [new_Date (currentYear s) i 1] else changes s),
            isOpen := False \<rparr>"
  using assms by (simp add: handleMonthSelect_def Let_def notify_def)

lemma handleDaySelect_selects:
  assumes "isDateInRange (min_bound parse p) (max_bound parse p)
             (new_Date (currentYear s) (currentMonth s) day)"
  shows "handleDaySelect parse p s day =
         s\<lparr> selectedDate := Some (new_Date (currentYear s) (currentMonth s) day),
            changes := (if onChange p
                        then changes s @ [new_Date (currentYear s) (currentMonth s) day]
                        else changes s),
            isOpen := False,
            viewMode := (if includeDays p then Days else Months) \<rparr>"
  using assms by (simp add: handleDaySelect_def Let_def notify_def)

lemma select_june_2024:
  "handleMonthSelect no_parse unbounded_props example_state 5 =
     example_state\<lparr> selectedDate := Some (new_Date 2024 5 1),
                    changes := [new_Date 2024 5 1], isOpen := False \<rparr>"
  by code_simp

lemma handleMonthSelect_first_of_month:
  assumes "\<not> includeDays p" and "viewMode s = Months"
    and "\<not> (0 \<le> currentYear s \<and> currentYear s \<le> 99)" and "0 \<le> i" and "i \<le> 11"
    and "isDateInRange (min_bound parse p) (max_bound parse p) (new_Date (currentYear s) i 1)"
  shows "\<exists>d. selectedDate (handleMonthSelect parse p s i) = Some d \<and>
           getFullYear d = currentYear s \<and> getMonth d = i \<and> getDate d = 1 \<and>
           changes (handleMonthSelect parse p s i) =
             (if onChange p then changes s @ [d] else changes s) \<and>
           \<not> isOpen (handleMonthSelect parse p s i) \<and>
           viewMode (handleMonthSelect parse p s i) = Months"
  using new_Date_fields [OF assms(3,4,5) _ month_length_pos] assms(2)
  by (simp add: handleMonthSelect_selects [OF assms(1,6)])

text \<open>
  C3. With the cursor at year 24, no bounds and no day granularity, picking month 5
  stores 1 June 1924 and hands 1 June 1924 to the callback: the constructor reads the
  cursor year 24 as 1924. For every cursor year outside 0..99 the stored date is the
  first of the picked month in the cursor year (\<open>handleMonthSelect_first_of_month\<close>).
\<close>

theorem handleMonthSelect_year_24:
  "currentYear (example_state\<lparr> currentYear := 24 \<rparr>) = 24 \<and>
   selectedDate (handleMonthSelect no_parse unbounded_props (example_state\<lparr> currentYear := 24 \<rparr>) 5)
     = Some (civil_Date 1924 5 1) \<and>
   changes (handleMonthSelect no_parse unbounded_props (example_state\<lparr> currentYear := 24 \<rparr>) 5)
     = [civil_Date 1924 5 1] \<and>
   getFullYear (civil_Date 1924 5 1) = 1924 \<and>
   civil_Date 1924 5 1 \<noteq> civil_Date 24 5 1"
  by code_simp

section \<open>Disabled cells\<close>

text \<open>
  A cell of the month grid is disabled exactly when the date built from the cursor
  year, its month and day 1 is out of range, and a cell of the year grid exactly when
  the date built from its year, month 0 and day 1 is; for a year outside 0..99 that
  date is the first of the month, or of the year. So a month whose first day is before
  the minimum is disabled whatever its other days are: with the minimum
  10 January 2024, January 2024 is disabled although its 15th is in range.
\<close>

lemma month_isDisabled_iff:
  assumes "\<not> (0 \<le> currentYear s \<and> currentYear s \<le> 99)"
  shows "month_isDisabled parse p s index \<longleftrightarrow>
         \<not> isDateInRange (min_bound parse p) (max_bound parse p)
             (civil_Date (currentYear s) index 1)"
  by (simp add: month_isDisabled_def new_Date_plain [OF assms])

lemma year_isDisabled_iff:
  assumes "\<not> (0 \<le> year \<and> year \<le> 99)"
  shows "year_isDisabled parse p year \<longleftrightarrow>
         \<not> isDateInRange (min_bound parse p) (max_bound parse p) (civil_Date year 0 1)"
  by (simp add: year_isDisabled_def new_Date_plain [OF assms])

lemma month_isDisabled_before_min:
  assumes "min_bound parse p = Some lo"
    and "getTime (new_Date (currentYear s) index 1) < getTime lo"
  shows "month_isDisabled parse p s index"
  using assms by (simp add: month_isDisabled_def isDateInRange_def)

lemma year_isDisabled_before_min:
  assumes "min_bound parse p = Some lo" and "getTime (new_Date year 0 1) < getTime lo"
  shows "year_isDisabled parse p year"
  using assms by (simp add: year_isDisabled_def isDateInRange_def)

lemma january_2024_disabled:
  "month_isDisabled no_parse day_props example_state 0 \<and>
   year_isDisabled no_parse day_props 2024 \<and>
   \<not> day_isDisabled no_parse day_props example_state 15"
  by code_simp

text \<open>
  C10. With the cursor at year 50 and the minimum bound 1 January 1940, the cell of
  January in the month grid and the cell of year 50 in the year grid are enabled,
  although 1 January of year 50 is before the minimum: the date that is tested is
  1 January 1950.
\<close>

theorem isDisabled_year_50:
  "\<not> month_isDisabled no_parse props_min_1940 (example_state\<lparr> currentYear := 50 \<rparr>) 0 \<and>
   \<not> year_isDisabled no_parse props_min_1940 50 \<and>
   getFullYear (civil_Date 50 0 1) = 50 \<and> getMonth (civil_Date 50 0 1) = 0 \<and>
   getDate (civil_Date 50 0 1) = 1 \<and>
   \<not> isDateInRange (min_bound no_parse props_min_1940) (max_bound no_parse props_min_1940)
       (civil_Date 50 0 1)"
  by code_simp

section \<open>Formatting\<close>

subsection \<open>Three replacements in sequence are one pass\<close>

text \<open>
  The code replaces \<^verbatim>\<open>yyyy\<close> in the whole pattern, then \<^verbatim>\<open>mm\<close> in the result, then
  \<^verbatim>\<open>dd\<close>. The texts put in are not empty and hold only digits and a minus sign, so a
  later replacement finds no match in them or across their ends, and the result is that
  of the single pass \<open>substitute_tokens\<close>.
\<close>

lemma replace_g_no_match:
  assumes "take (length pat) (c # cs) \<noteq> pat"
  shows "replace_g pat rep (c # cs) = c # replace_g pat rep cs"
proof -
  have "\<not> (pat \<noteq> [] \<and> take (length pat) (c # cs) = pat)" using assms by blast
  then show ?thesis by (subst replace_g.simps) (rule if_not_P)
qed

lemma replace_g_match:
  assumes "pat \<noteq> []" "take (length pat) (c # cs) = pat"
  shows "replace_g pat rep (c # cs) = rep @ replace_g pat rep (drop (length pat) (c # cs))"
proof -
  have "pat \<noteq> [] \<and> take (length pat) (c # cs) = pat" using assms by blast
  then show ?thesis by (subst replace_g.simps) (rule if_P)
qed

lemma take_other_head:
  assumes "pat \<noteq> []" "c \<noteq> hd pat"
  shows "take (length pat) (c # cs) \<noteq> pat"
proof
  assume "take (length pat) (c # cs) = pat"
  then have "hd pat = hd (take (length pat) (c # cs))" by simp
  also have "\<dots> = c" using assms(1) by (cases pat) simp_all
  finally show False using assms(2) by simp
qed

lemma replace_g_other_head:
  assumes "pat \<noteq> []" "c \<noteq> hd pat"
  shows "replace_g pat rep (c # cs) = c # replace_g pat rep cs"
  by (rule replace_g_no_match) (rule take_other_head [OF assms])

lemma replace_g_skip_prefix:
  assumes "pat \<noteq> []" "hd pat \<notin> set a"
  shows "replace_g pat rep (a @ b) = a @ replace_g pat rep b"
  using assms(2)
proof (induction a)
  case Nil
  show ?case by simp
next
  case (Cons c a)
  from Cons.prems have "c \<noteq> hd pat" "hd pat \<notin> set a" by auto
  then show ?case
    using Cons.IH replace_g_other_head [OF assms(1), of c rep "a @ b"] by simp
qed

lemma replace_g_not_starts_with:
  assumes "\<not> starts_with c r" "rep \<noteq> []" "hd rep \<noteq> c"
  shows "\<not> starts_with c (replace_g pat rep r)"
proof (cases r)
  case Nil
  then show ?thesis by (simp add: starts_with_def)
next
  case (Cons x xs)
  with assms(1) have "x \<noteq> c" by (simp add: starts_with_def)
  moreover from assms(2,3) have "\<not> starts_with c (rep @ zs)" for zs
    by (cases rep) (simp_all add: starts_with_def)
  ultimately show ?thesis using Cons by (simp add: starts_with_def)
qed

lemma take2_pair: "take 2 (c # xs) = [p, q] \<longleftrightarrow> c = p \<and> starts_with q xs"
  by (cases xs) (auto simp: starts_with_def numeral_2_eq_2)

lemma replace_g_pair_no_match:
  assumes "\<not> (c = p \<and> starts_with p xs)"
  shows "replace_g [p, p] rep (c # xs) = c # replace_g [p, p] rep xs"
proof (rule replace_g_no_match)
  have "take 2 (c # xs) \<noteq> [p, p]" using assms take2_pair [of c xs p p] by blast
  then show "take (length [p, p]) (c # xs) \<noteq> [p, p]" by (simp add: numeral_2_eq_2)
qed

lemma replace_g_pair_match:
  "replace_g [p, p] rep (p # p # xs) = rep @ replace_g [p, p] rep xs"
  using replace_g_match [of "[p, p]" p "p # xs" rep] by simp

lemma take2_decomp:
  assumes "take 2 s = [a, b]"
  shows "s = a # b # drop 2 s"
proof -
  have "s = take 2 s @ drop 2 s" by simp
  then show ?thesis unfolding assms by simp
qed

lemma take4_decomp:
  assumes "take 4 s = [a, b, c, d]"
  shows "s = a # b # c # d # drop 4 s"
proof -
  have "s = take 4 s @ drop 4 s" by simp
  then show ?thesis unfolding assms by simp
qed

lemma hd_not_in: "xs \<noteq> [] \<Longrightarrow> c \<notin> set xs \<Longrightarrow> hd xs \<noteq> c"
  by (cases xs) auto

lemma three_passes_one_pass:
  assumes Y: "Y \<noteq> []" "CHR ''m'' \<notin> set Y" "CHR ''d'' \<notin> set Y"
    and M: "M \<noteq> []" "CHR ''d'' \<notin> set M"
  shows "replace_g ''dd'' D (replace_g ''mm'' M (replace_g ''yyyy'' Y s)) =
         substitute_tokens Y M D s"
proof (induction s rule: length_induct)
  case (1 s)
  let ?f1 = "replace_g ''yyyy'' Y" and ?f2 = "replace_g ''mm'' M" and ?f3 = "replace_g ''dd'' D"
  let ?g = "substitute_tokens Y M D"
  from 1 have IH: "?f3 (?f2 (?f1 t)) = ?g t" if "length t < length s" for t
    using that by blast
  have hY: "hd Y \<noteq> CHR ''m''" "hd Y \<noteq> CHR ''d''"
    using hd_not_in [OF Y(1)] Y(2,3) by blast+
  have hM: "hd M \<noteq> CHR ''d''"
    using hd_not_in [OF M(1)] M(2) by blast
  have skipY2: "?f2 (Y @ x) = Y @ ?f2 x" for x
    by (rule replace_g_skip_prefix) (use Y in simp_all)
  have skipY3: "?f3 (Y @ x) = Y @ ?f3 x" for x
    by (rule replace_g_skip_prefix) (use Y in simp_all)
  have skipM3: "?f3 (M @ x) = M @ ?f3 x" for x
    by (rule replace_g_skip_prefix) (use M in simp_all)
  show ?case
  proof (cases s)
    case Nil
    then show ?thesis by simp
  next
    case (Cons c cs)
    consider (y) "take 4 s = ''yyyy''"
      | (m) "take 2 s = ''mm''"
      | (d) "take 2 s = ''dd''"
      | (o) "take 4 s \<noteq> ''yyyy''" "take 2 s \<noteq> ''mm''" "take 2 s \<noteq> ''dd''"
      by blast
    then show ?thesis
    proof cases
      case y
      define r where "r = drop 4 s"
      have s: "s = CHR ''y'' # CHR ''y'' # CHR ''y'' # CHR ''y'' # r"
        unfolding r_def by (rule take4_decomp [OF y])
      have len: "length r < length s" using arg_cong [OF s, of length] by simp
      have "?f1 s = Y @ ?f1 r"
        unfolding s using replace_g_match [of "''yyyy''" "CHR ''y''" "''yyy'' @ r" Y] by simp
      then have "?f3 (?f2 (?f1 s)) = Y @ ?f3 (?f2 (?f1 r))"
        by (simp only: skipY2 skipY3)
      moreover have "?g s = Y @ ?g r" unfolding s by simp
      ultimately show ?thesis using IH [OF len] by simp
    next
      case m
      define r where "r = drop 2 s"
      have s: "s = CHR ''m'' # CHR ''m'' # r"
        unfolding r_def by (rule take2_decomp [OF m])
      have len: "length r < length s" using arg_cong [OF s, of length] by simp
      have "?f1 s = CHR ''m'' # CHR ''m'' # ?f1 r"
        unfolding s by (simp add: replace_g_other_head del: replace_g.simps)
      then have "?f2 (?f1 s) = M @ ?f2 (?f1 r)"
        by (simp only: replace_g_pair_match)
      then have "?f3 (?f2 (?f1 s)) = M @ ?f3 (?f2 (?f1 r))"
        by (simp only: skipM3)
      moreover have "?g s = M @ ?g r" unfolding s by simp
      ultimately show ?thesis using IH [OF len] by simp
    next
      case d
      define r where "r = drop 2 s"
      have s: "s = CHR ''d'' # CHR ''d'' # r"
        unfolding r_def by (rule take2_decomp [OF d])
      have len: "length r < length s" using arg_cong [OF s, of length] by simp
      have "?f1 s = CHR ''d'' # CHR ''d'' # ?f1 r"
        unfolding s by (simp add: replace_g_other_head del: replace_g.simps)
      then have "?f2 (?f1 s) = CHR ''d'' # CHR ''d'' # ?f2 (?f1 r)"
        by (simp add: replace_g_other_head del: replace_g.simps)
      then have "?f3 (?f2 (?f1 s)) = D @ ?f3 (?f2 (?f1 r))"
        by (simp only: replace_g_pair_match)
      moreover have "?g s = D @ ?g r" unfolding s by simp
      ultimately show ?thesis using IH [OF len] by simp
    next
      case o
      have len: "length cs < length s" using Cons by simp
      have l4: "length ''yyyy'' = 4" by simp
      have n1: "take (length ''yyyy'') (c # cs) \<noteq> ''yyyy''"
        unfolding l4 using o(1) unfolding Cons .
      have nm: "\<not> (c = CHR ''m'' \<and> starts_with CHR ''m'' cs)"
        using o(2) take2_pair [of c cs "CHR ''m''" "CHR ''m''"] unfolding Cons by blast
      have nd: "\<not> (c = CHR ''d'' \<and> starts_with CHR ''d'' cs)"
        using o(3) take2_pair [of c cs "CHR ''d''" "CHR ''d''"] unfolding Cons by blast
      have f1: "?f1 s = c # ?f1 cs"
        unfolding Cons by (rule replace_g_no_match [OF n1])
      have nm1: "\<not> (c = CHR ''m'' \<and> starts_with CHR ''m'' (?f1 cs))"
        using nm replace_g_not_starts_with [OF _ Y(1) hY(1), of cs "''yyyy''"] by blast
      have f2: "?f2 (?f1 s) = c # ?f2 (?f1 cs)"
        unfolding f1 by (rule replace_g_pair_no_match [OF nm1])
      have nd1: "\<not> (c = CHR ''d'' \<and> starts_with CHR ''d'' (?f1 cs))"
        using nd replace_g_not_starts_with [OF _ Y(1) hY(2), of cs "''yyyy''"] by blast
      have nd2: "\<not> (c = CHR ''d'' \<and> starts_with CHR ''d'' (?f2 (?f1 cs)))"
        using nd1 replace_g_not_starts_with [OF _ M(1) hM, of "?f1 cs" "''mm''"] by blast
      have f3: "?f3 (?f2 (?f1 s)) = c # ?f3 (?f2 (?f1 cs))"
        unfolding f2 by (rule replace_g_pair_no_match [OF nd2])
      have "?g s = c # ?g cs"
        using o unfolding Cons by (simp only: substitute_tokens.simps if_False)
      then show ?thesis using f3 IH [OF len] by simp
    qed
  qed
qed

lemma digit_in: "k < 10 \<Longrightarrow> digit k \<in> digit_chars"
proof -
  assume "k < 10"
  then have "k < length ''0123456789''" by simp
  then show ?thesis unfolding digit_def digit_chars_def by (rule nth_mem)
qed

lemma digits_chars: "digits n \<noteq> [] \<and> set (digits n) \<subseteq> digit_chars"
proof (induction n rule: digits.induct)
  case (1 n)
  show ?case
  proof (cases "n < 10")
    case True
    then show ?thesis using digit_in [of n] by (subst (1 2) digits.simps) simp
  next
    case False
    have "n mod 10 < 10" by simp
    then have "digit (n mod 10) \<in> digit_chars" by (rule digit_in)
    then show ?thesis using False "1.IH" by (subst (1 2) digits.simps) simp
  qed
qed

lemma Number_toString_chars:
  "Number_toString n \<noteq> [] \<and> set (Number_toString n) \<subseteq> insert CHR ''-'' digit_chars"
proof (cases "n < 0")
  case True
  then have "Number_toString n = CHR ''-'' # digits (nat (- n))"
    by (simp add: Number_toString_def)
  then show ?thesis using digits_chars [of "nat (- n)"] by auto
next
  case False
  then have "Number_toString n = digits (nat n)"
    by (simp add: Number_toString_def)
  then show ?thesis using digits_chars [of "nat n"] by auto
qed

lemma padStart_chars:
  "s \<noteq> [] \<Longrightarrow> padStart n c s \<noteq> []" "set (padStart n c s) \<subseteq> insert c (set s)"
  by (auto simp: padStart_def)

lemma zero_digit: "CHR ''0'' \<in> digit_chars"
  by (simp add: digit_chars_def)

lemma letters_not_digits:
  "CHR ''m'' \<notin> insert CHR ''-'' digit_chars" "CHR ''d'' \<notin> insert CHR ''-'' digit_chars"
  by (simp_all add: digit_chars_def)

lemma formatDateByString_substitutes:
  "formatDateByString date format =
     substitute_tokens
       (Number_toString (getFullYear date))
       (padStart 2 CHR ''0'' (Number_toString (getMonth date + 1)))
       (padStart 2 CHR ''0'' (Number_toString (getDate date)))
       format"
proof -
  let ?Y = "Number_toString (getFullYear date)"
  let ?N = "Number_toString (getMonth date + 1)"
  let ?M = "padStart 2 CHR ''0'' ?N"
  let ?A = "insert CHR ''-'' digit_chars"
  have Y: "?Y \<noteq> []" "set ?Y \<subseteq> ?A"
    using Number_toString_chars [of "getFullYear date"] by blast+
  have M0: "?N \<noteq> []" "set ?N \<subseteq> ?A"
    using Number_toString_chars [of "getMonth date + 1"] by blast+
  have M1: "?M \<noteq> []" by (rule padStart_chars(1) [OF M0(1)])
  have "set ?M \<subseteq> insert CHR ''0'' (set ?N)" by (rule padStart_chars(2))
  with M0(2) zero_digit have M2: "set ?M \<subseteq> ?A" by blast
  from Y(2) M2 letters_not_digits
  have c: "CHR ''m'' \<notin> set ?Y" "CHR ''d'' \<notin> set ?Y" "CHR ''d'' \<notin> set ?M" by blast+
  show ?thesis
    unfolding formatDateByString_def Let_def
    by (rule three_passes_one_pass [OF Y(1) c(1,2) M1 c(3)])
qed

lemma digits_1: "n < 10 \<Longrightarrow> length (digits n) = 1"
  by (subst digits.simps) simp

lemma digits_2: "10 \<le> n \<Longrightarrow> n < 100 \<Longrightarrow> length (digits n) = 2"
  by (subst digits.simps) (simp add: digits_1)

lemma digits_3: "100 \<le> n \<Longrightarrow> n < 1000 \<Longrightarrow> length (digits n) = 3"
  by (subst digits.simps) (simp add: digits_2)

lemma digits_4: "1000 \<le> n \<Longrightarrow> n < 10000 \<Longrightarrow> length (digits n) = 4"
  by (subst digits.simps) (simp add: digits_3)

lemma four_digit_year:
  assumes "1000 \<le> y" "y \<le> 9999"
  shows "length (Number_toString y) = 4"
  using assms digits_4 [of "nat y"] by (simp add: Number_toString_def)

lemma two_digit_pad:
  assumes "0 \<le> n" "n \<le> 99"
  shows "length (padStart 2 CHR ''0'' (Number_toString n)) = 2"
proof (cases "n < 10")
  case True
  then show ?thesis using assms digits_1 [of "nat n"] by (simp add: Number_toString_def padStart_def)
next
  case False
  then show ?thesis using assms digits_2 [of "nat n"] by (simp add: Number_toString_def padStart_def)
qed

lemma formatDateByString_widths:
  "length (padStart 2 CHR ''0'' (Number_toString (getMonth date + 1))) = 2 \<and>
   length (padStart 2 CHR ''0'' (Number_toString (getDate date))) = 2 \<and>
   (1000 \<le> getFullYear date \<and> getFullYear date \<le> 9999 \<longrightarrow>
      length (Number_toString (getFullYear date)) = 4)"
proof -
  have "0 \<le> getMonth date + 1" "getMonth date + 1 \<le> 99"
    using MonthFromTime_range [of "getTime date"] by (simp_all add: getMonth_def)
  then have m: "length (padStart 2 CHR ''0'' (Number_toString (getMonth date + 1))) = 2"
    by (rule two_digit_pad)
  have "0 \<le> getDate date" "getDate date \<le> 99"
    using DateFromTime_range [of "getTime date"] by (simp_all add: getDate_def)
  then have d: "length (padStart 2 CHR ''0'' (Number_toString (getDate date))) = 2"
    by (rule two_digit_pad)
  from m d four_digit_year [of "getFullYear date"] show ?thesis by blast
qed

subsection \<open>The scenario of the specification, and a year below 1000\<close>


lemma formatDateByString_scenario:
  "formatDateByString (new_Date 2023 2 15) ''yyyy/mm/dd'' = ''2023/03/15''"
  by code_simp

text \<open>
  C5. For the 15th of March of year 50 the pattern \<^verbatim>\<open>yyyy/mm/dd\<close> gives \<^verbatim>\<open>50/03/15\<close>:
  the month and the day are padded to two digits, the year is not padded to four.
  Every occurrence of the three tokens is substituted and the other characters are
  kept (\<open>formatDateByString_substitutes\<close>), and for the years from 1000 to 9999 the
  text of the year has four digits (\<open>formatDateByString_widths\<close>).
\<close>

theorem formatDateByString_year_50:
  "getFullYear (civil_Date 50 2 15) = 50 \<and>
   formatDateByString (civil_Date 50 2 15) ''yyyy/mm/dd'' = ''50/03/15''"
  by code_simp

end
